theory Spec2Isabelle
  imports Complex_Main "HOL-Library.AList"
begin

section \<open>Python primitives used by the backend\<close>

text \<open>
  Python strings are modelled as \<^typ>\<open>string\<close>: one \<^typ>\<open>char\<close> per character, so
  the model covers the texts whose code points are below 256. Integers are Python's
  unbounded \<^typ>\<open>int\<close>. Every exception the modelled code can raise is a value of
  \<open>error\<close>; a function that can raise returns \<open>error + 'a\<close>.
\<close>

datatype error =
    IndexError
  | JSONDecodeError
  | AttributeError
  | TypeError
  | ValueError
  | ConnectionError
  | ConnectTimeout
  | ReadTimeout
  | HTTPError
  | RequestException
  | CannotConnect
  | OllamaTimedOut
  | ModelNotInitialized
  | FailedToAnswer error

text \<open>
  \<open>ConnectionError\<close>, \<open>ConnectTimeout\<close>, \<open>ReadTimeout\<close>, \<open>HTTPError\<close> and
  \<open>RequestException\<close> (any other one) are the exceptions of \<open>requests\<close>.
  \<open>ConnectTimeout\<close> is a subclass of both \<open>ConnectionError\<close> and \<open>Timeout\<close>,
  \<open>ReadTimeout\<close> of \<open>Timeout\<close> only. The next three stand for the \<open>Exception\<close>s the
  backend raises with a fixed message: "Cannot connect to Ollama. Make sure Ollama is
  running.", "Ollama timed out. The model may be overloaded - try again." and
  "Sentence-Transformers model not initialized". \<open>FailedToAnswer e\<close> is
  \<open>Exception(f"Failed to answer question: {str(e)}")\<close>.
\<close>

definition is_ConnectionError :: "error \<Rightarrow> bool" where
  "is_ConnectionError e = (e = ConnectionError \<or> e = ConnectTimeout)"

definition is_Timeout :: "error \<Rightarrow> bool" where
  "is_Timeout e = (e = ReadTimeout \<or> e = ConnectTimeout)"

text \<open>\<open>xs[i]\<close>: a negative index counts from the end, an index out of range raises.\<close>

definition py_getitem :: "'a list \<Rightarrow> int \<Rightarrow> error + 'a" where
  "py_getitem xs i =
     (if 0 \<le> i \<and> i < int (length xs) then Inr (xs ! nat i)
      else if i < 0 \<and> - int (length xs) \<le> i then Inr (xs ! nat (int (length xs) + i))
      else Inl IndexError)"

text \<open>\<open>xs[lo:hi]\<close>: both bounds are clamped to the list, negative ones after adding
  the length; an empty range gives the empty list and nothing raises.\<close>

definition py_bound :: "nat \<Rightarrow> int \<Rightarrow> nat" where
  "py_bound n i = (if i < 0 then nat (max (int n + i) 0) else min (nat i) n)"

definition py_slice :: "'a list \<Rightarrow> int \<Rightarrow> int \<Rightarrow> 'a list" where
  "py_slice xs lo hi =
     (let l = py_bound (length xs) lo; h = py_bound (length xs) hi
      in take (h - l) (drop l xs))"

text \<open>\<open>str.isspace\<close> on the code points below 256, and \<open>str.strip()\<close>.\<close>

definition py_isspace :: "char \<Rightarrow> bool" where
  "py_isspace c = ((of_char c :: nat) \<in> {9, 10, 11, 12, 13, 28, 29, 30, 31, 32, 133, 160})"

definition lstrip :: "string \<Rightarrow> string" where
  "lstrip s = dropWhile py_isspace s"

definition rstrip :: "string \<Rightarrow> string" where
  "rstrip s = rev (dropWhile py_isspace (rev s))"

definition strip :: "string \<Rightarrow> string" where
  "strip s = rstrip (lstrip s)"

text \<open>\<open>range(hi, lo, -1)\<close>: \<open>hi, hi - 1, ..., lo + 1\<close>.\<close>

definition range_down :: "int \<Rightarrow> int \<Rightarrow> int list" where
  "range_down hi lo = rev [lo + 1 .. hi]"

section \<open>pdf\_handler.py: PDFHandler.chunk\_text\<close>

record PDFHandler =
  chunk_size :: int
  chunk_overlap :: int

text \<open>The dictionary appended for each chunk (keys \<open>chunk_id\<close>, \<open>text\<close>,
  \<open>start_pos\<close>, \<open>end_pos\<close>, \<open>length\<close>).\<close>

record chunk =
  chunk_id :: nat
  chunk_str :: string
  start_pos :: int
  end_pos :: int
  chunk_len :: nat

definition sentence_end :: "char \<Rightarrow> bool" where
  "sentence_end c = (c \<in> set [CHR ''.'', CHR ''!'', CHR ''?'', CHR 0x0A])"

text \<open>
  The inner \<open>for i in range(end, max(start, end - 100), -1)\<close>: the first \<open>i\<close> whose
  character ends a sentence gives the new end \<open>i + 1\<close> (and the \<open>break\<close>); when the
  range is exhausted the end is unchanged. \<open>text[i]\<close> may raise.
\<close>

fun find_break :: "string \<Rightarrow> int list \<Rightarrow> int \<Rightarrow> error + int" where
  "find_break text [] e = Inr e"
| "find_break text (i # rest) e =
     (case py_getitem text i of
        Inl err \<Rightarrow> Inl err
      | Inr c \<Rightarrow> if sentence_end c then Inr (i + 1) else find_break text rest e)"

definition chunk_end :: "PDFHandler \<Rightarrow> string \<Rightarrow> int \<Rightarrow> error + int" where
  "chunk_end h text start =
     (let e = start + chunk_size h
      in if e < int (length text)
         then find_break text (range_down e (max start (e - 100))) e
         else Inr e)"

text \<open>
  The \<open>while start < len(text)\<close> loop. Its state is \<open>start\<close>, \<open>chunk_id\<close> and
  \<open>chunks\<close>. The loop need not terminate, so the model is a partial function: \<open>None\<close> is
  a run that never returns, \<open>Some (Inl err)\<close> a raised exception and \<open>Some (Inr chunks)\<close>
  the returned list.
\<close>

partial_function (option) chunk_loop ::
  "PDFHandler \<Rightarrow> string \<Rightarrow> int \<Rightarrow> nat \<Rightarrow> chunk list \<Rightarrow> (error + chunk list) option"
where
  "chunk_loop h text start cid chunks =
     (if start < int (length text) then
        (case chunk_end h text start of
           Inl err \<Rightarrow> Some (Inl err)
         | Inr e \<Rightarrow>
             (let piece = strip (py_slice text start e) in
              if piece \<noteq> []
              then chunk_loop h text (e - chunk_overlap h) (cid + 1)
                     (chunks @ [\<lparr>chunk_id = cid, chunk_str = piece, start_pos = start,
                                 end_pos = e, chunk_len = length piece\<rparr>])
              else chunk_loop h text (e - chunk_overlap h) cid chunks))
      else Some (Inr chunks))"

declare chunk_loop.simps [code]

definition chunk_text :: "PDFHandler \<Rightarrow> string \<Rightarrow> (error + chunk list) option" where
  "chunk_text h text = chunk_loop h text 0 0 []"

text \<open>The module's instance \<open>pdf_handler = PDFHandler()\<close> with the default arguments.\<close>

definition pdf_handler :: PDFHandler where
  "pdf_handler = \<lparr>chunk_size = 1000, chunk_overlap = 200\<rparr>"

section \<open>ai/ollama\_client.py: OllamaClient\<close>

text \<open>
  The values \<open>json.loads\<close> and \<open>response.json()\<close> return. Numbers (Python \<open>int\<close> and
  \<open>float\<close>) are idealised as reals; a decoded object is the list of its key-value pairs.
\<close>

datatype json =
    JNull
  | JBool bool
  | JNum real
  | JStr string
  | JArr "json list"
  | JObj "(string \<times> json) list"

text \<open>Python's truth value of a decoded value (\<open>if token:\<close>, \<open>x or []\<close>).\<close>

fun truthy :: "json \<Rightarrow> bool" where
  "truthy JNull = False"
| "truthy (JBool b) = b"
| "truthy (JNum x) = (x \<noteq> 0)"
| "truthy (JStr s) = (s \<noteq> [])"
| "truthy (JArr xs) = (xs \<noteq> [])"
| "truthy (JObj kvs) = (kvs \<noteq> [])"

text \<open>\<open>d.get(key, default)\<close>: only a dict has the method, on any other value the
  attribute lookup raises.\<close>

fun dict_get :: "json \<Rightarrow> string \<Rightarrow> json \<Rightarrow> error + json" where
  "dict_get (JObj kvs) k d = Inr (case map_of kvs k of None \<Rightarrow> d | Some v \<Rightarrow> v)"
| "dict_get _ k d = Inl AttributeError"

text \<open>\<open>"".join(parts)\<close>: raises when an item is not a string.\<close>

fun join :: "json list \<Rightarrow> error + string" where
  "join [] = Inr []"
| "join (JStr s # rest) = (case join rest of Inl e \<Rightarrow> Inl e | Inr t \<Rightarrow> Inr (s @ t))"
| "join (_ # rest) = Inl TypeError"

record message =
  role :: string
  content :: string

record options =
  num_ctx :: int
  temperature :: "real option"
  num_predict :: "int option"

record payload =
  model :: string
  messages :: "message list"
  options :: options
  stream :: bool

text \<open>
  What \<open>requests.post(url, json=payload, stream=True, timeout=...)\<close> gives for the chat
  endpoint: the call raises, or it returns a response with a status (\<open>raise_for_status\<close>
  raises \<open>HTTPError\<close> on a bad one) whose \<open>iter_lines()\<close> yields lines and then either ends
  or raises. A line is represented by what the loop body sees of it: it is empty, or
  \<open>json.loads\<close> raises on it, or \<open>json.loads\<close> returns a value.
\<close>

datatype line = Blank | Malformed | Decoded json

datatype stream_end = Closed | Raises error

datatype http_stream = PostRaises error | Response bool "line list" stream_end

text \<open>
  How \<open>requests\<close> produces these outcomes. Either no response arrives and \<open>post\<close>
  raises (a read timeout before the response is \<open>ReadTimeout\<close> there), or the status
  line arrives and the body is read piece by piece under \<open>iter_lines\<close>, until it ends or
  the transport fails. \<open>Response.iter_content\<close> re-raises a transport failure as an
  exception of \<open>requests\<close>: a read timeout on the body (\<open>ReadTimeoutError\<close>) and an SSL
  failure as \<open>ConnectionError\<close>, a protocol or decoding failure as another
  \<open>RequestException\<close>.
\<close>

datatype body_end = EndOfBody | ReadTimeoutError | ProtocolError | DecodeError | SSLError

datatype exchange = NoResponse error | Streamed bool "line list" body_end

fun iter_content_end :: "body_end \<Rightarrow> stream_end" where
  "iter_content_end EndOfBody = Closed"
| "iter_content_end ReadTimeoutError = Raises ConnectionError"
| "iter_content_end ProtocolError = Raises RequestException"
| "iter_content_end DecodeError = Raises RequestException"
| "iter_content_end SSLError = Raises ConnectionError"

fun requests_post :: "exchange \<Rightarrow> http_stream" where
  "requests_post (NoResponse e) = PostRaises e"
| "requests_post (Streamed ok ls b) = Response ok ls (iter_content_end b)"

text \<open>
  The \<open>for line in resp.iter_lines()\<close> loop of \<open>_stream_chat\<close>. The result is
  \<open>content_parts\<close> when the loop is left and the exception that left it, if any.
\<close>

fun read_lines :: "line list \<Rightarrow> stream_end \<Rightarrow> json list \<Rightarrow> json list \<times> error option" where
  "read_lines [] Closed parts = (parts, None)"
| "read_lines [] (Raises e) parts = (parts, Some e)"
| "read_lines (Blank # rest) ending parts = read_lines rest ending parts"
| "read_lines (Malformed # rest) ending parts = (parts, Some JSONDecodeError)"
| "read_lines (Decoded chunk # rest) ending parts =
     (case dict_get chunk ''message'' (JObj []) of
        Inl e \<Rightarrow> (parts, Some e)
      | Inr msg \<Rightarrow>
          (case dict_get msg ''content'' (JStr '''') of
             Inl e \<Rightarrow> (parts, Some e)
           | Inr token \<Rightarrow>
               (let parts' = (if truthy token then parts @ [token] else parts) in
                case dict_get chunk ''done'' JNull of
                  Inl e \<Rightarrow> (parts', Some e)
                | Inr d \<Rightarrow> if truthy d then (parts', None) else read_lines rest ending parts')))"

text \<open>\<open>"".join(content_parts).strip()\<close>.\<close>

definition join_strip :: "json list \<Rightarrow> error + string" where
  "join_strip parts = (case join parts of Inl e \<Rightarrow> Inl e | Inr s \<Rightarrow> Inr (strip s))"

text \<open>The two \<open>except\<close> clauses of \<open>_stream_chat\<close>, in their order; any other exception
  propagates.\<close>

definition handle_exc :: "error \<Rightarrow> json list \<Rightarrow> error + string" where
  "handle_exc e content_parts =
     (if is_ConnectionError e then Inl CannotConnect
      else if is_Timeout e then
        (if content_parts \<noteq> [] then join_strip content_parts else Inl OllamaTimedOut)
      else Inl e)"

definition stream_chat :: "(payload \<Rightarrow> http_stream) \<Rightarrow> payload \<Rightarrow> error + string" where
  "stream_chat post p =
     (case post (p\<lparr>stream := True\<rparr>) of
        PostRaises e \<Rightarrow> handle_exc e []
      | Response ok lines ending \<Rightarrow>
          if \<not> ok then handle_exc HTTPError []
          else (case read_lines lines ending [] of
                  (parts, Some e) \<Rightarrow> handle_exc e parts
                | (parts, None) \<Rightarrow> join_strip parts))"

text \<open>
  The client: the default chat model, the embedding model of the settings, and the two
  endpoints as the client sees them. \<open>post_json\<close> is \<open>_post\<close> on \<open>/api/embeddings\<close>: it
  raises or returns the decoded body.
\<close>

record OllamaClient =
  default_model :: string
  OLLAMA_EMBEDDING_MODEL :: string
  post_chat :: "payload \<Rightarrow> http_stream"
  post_json :: "string \<Rightarrow> string \<Rightarrow> error + json"

definition model_or :: "string option \<Rightarrow> string \<Rightarrow> string" where
  "model_or m d = (case m of None \<Rightarrow> d | Some s \<Rightarrow> if s = [] then d else s)"

definition chat ::
  "OllamaClient \<Rightarrow> message list \<Rightarrow> string option \<Rightarrow> real option \<Rightarrow> int option \<Rightarrow> error + string" where
  "chat c msgs m temp max_tokens =
     stream_chat (post_chat c)
       \<lparr>model = model_or m (default_model c), messages = msgs,
        options = \<lparr>num_ctx = 2048, temperature = temp, num_predict = max_tokens\<rparr>,
        stream = False\<rparr>"

text \<open>\<open>embeddings\<close>: one request per text, in order; the first exception ends the call.
  \<open>data.get("embedding") or []\<close> is the empty list when the field is absent or falsy.\<close>

definition embedding_of :: "json \<Rightarrow> error + json" where
  "embedding_of data =
     (case dict_get data ''embedding'' JNull of
        Inl e \<Rightarrow> Inl e
      | Inr v \<Rightarrow> Inr (if truthy v then v else JArr []))"

fun embeddings_loop :: "OllamaClient \<Rightarrow> string option \<Rightarrow> string list \<Rightarrow> json list \<Rightarrow> error + json list" where
  "embeddings_loop c m [] results = Inr results"
| "embeddings_loop c m (t # texts) results =
     (case post_json c (model_or m (OLLAMA_EMBEDDING_MODEL c)) t of
        Inl e \<Rightarrow> Inl e
      | Inr data \<Rightarrow>
          (case embedding_of data of
             Inl e \<Rightarrow> Inl e
           | Inr embedding \<Rightarrow> embeddings_loop c m texts (results @ [embedding])))"

definition embeddings :: "OllamaClient \<Rightarrow> string list \<Rightarrow> string option \<Rightarrow> error + json list" where
  "embeddings c texts m = embeddings_loop c m texts []"

text \<open>\<open>str(n)\<close> for a natural number, \<open>sep.join(strings)\<close> and \<open>s.split(sep)\<close> for a
  one-character separator.\<close>

function str_nat :: "nat \<Rightarrow> string" where
  "str_nat n = (if n < 10 then [''0123456789'' ! n]
                else str_nat (n div 10) @ [''0123456789'' ! (n mod 10)])"
  by pat_completeness auto
termination
  by (relation "measure id") auto

fun join_sep :: "string \<Rightarrow> string list \<Rightarrow> string" where
  "join_sep sep [] = []"
| "join_sep sep [s] = s"
| "join_sep sep (s # t # rest) = s @ sep @ join_sep sep (t # rest)"

fun split_on :: "char \<Rightarrow> string \<Rightarrow> string list" where
  "split_on c [] = [[]]"
| "split_on c (x # xs) =
     (if x = c then [] # split_on c xs
      else (case split_on c xs of
              [] \<Rightarrow> [[x]]
            | w # ws \<Rightarrow> (x # w) # ws))"

section \<open>vector\_db.py: VectorDB\<close>

text \<open>
  The Chroma client is modelled by what the backend uses of it. A collection holds its
  records in insertion order, keyed by id; the client holds the collections keyed by
  name. \<open>get_or_create_collection\<close> returns the collection of that name, creating an
  empty one when there is none. \<open>Collection.add\<close> raises on an empty or ill-matched batch
  and on an empty embedding vector, storing nothing; a record whose id is already
  stored is left out, the stored record stays (replacing it is what \<open>upsert\<close> does,
  which the backend does not call). \<open>Collection.query\<close> raises on a number of results
  below 1 and on an empty query vector, and otherwise returns, for each query
  embedding, the \<open>n_results\<close> records nearest to it in the collection's distance.
\<close>

record entry =
  document :: string
  embedding :: json
  metadata :: json

type_synonym collection = "(string \<times> entry) list"

type_synonym chroma = "(string \<times> collection) list"

definition chroma_get_or_create :: "chroma \<Rightarrow> string \<Rightarrow> chroma \<times> collection" where
  "chroma_get_or_create cl name =
     (case map_of cl name of
        Some coll \<Rightarrow> (cl, coll)
      | None \<Rightarrow> (cl @ [(name, [])], []))"

definition list_collections :: "chroma \<Rightarrow> string list" where
  "list_collections cl = map fst cl"

fun empty_vector :: "json \<Rightarrow> bool" where
  "empty_vector (JArr []) = True"
| "empty_vector j = False"

definition add_record :: "string \<times> entry \<Rightarrow> collection \<Rightarrow> collection" where
  "add_record r coll =
     (case map_of coll (fst r) of
        None \<Rightarrow> coll @ [r]
      | Some old \<Rightarrow> coll)"

definition chroma_add ::
  "collection \<Rightarrow> json list \<Rightarrow> string list \<Rightarrow> string list \<Rightarrow> json list
     \<Rightarrow> error + collection" where
  "chroma_add coll embs docs ids metas =
     (if ids = [] \<or> \<not> distinct ids \<or> length embs \<noteq> length ids \<or> length docs \<noteq> length ids
         \<or> length metas \<noteq> length ids \<or> list_ex empty_vector embs
      then Inl ValueError
      else Inr (fold add_record
                  (zip ids (map (\<lambda>(d, e, m). \<lparr>document = d, embedding = e, metadata = m\<rparr>)
                               (zip docs (zip embs metas))))
                  coll))"

record chroma_result =
  res_documents :: "string list list"
  res_distances :: "real list list"
  res_metadatas :: "json list list"

definition nearest :: "(json \<Rightarrow> json \<Rightarrow> real) \<Rightarrow> collection \<Rightarrow> json \<Rightarrow> nat \<Rightarrow> entry list" where
  "nearest metric coll q n = take n (sort_key (\<lambda>e. metric q (embedding e)) (map snd coll))"

definition chroma_query ::
  "(json \<Rightarrow> json \<Rightarrow> real) \<Rightarrow> collection \<Rightarrow> json list \<Rightarrow> int \<Rightarrow> error + chroma_result" where
  "chroma_query metric coll qs n =
     (if n \<le> 0 then Inl TypeError
      else if list_ex empty_vector qs then Inl IndexError
      else Inr \<lparr>res_documents = map (\<lambda>q. map document (nearest metric coll q (nat n))) qs,
                res_distances = map (\<lambda>q. map (\<lambda>e. metric q (embedding e)) (nearest metric coll q (nat n))) qs,
                res_metadatas = map (\<lambda>q. map metadata (nearest metric coll q (nat n))) qs\<rparr>)"

text \<open>
  The \<open>VectorDB\<close> object after \<open>__init__\<close>: the Chroma client (the only mutable part),
  the normalised provider name, the local model's \<open>encode(texts,
  normalize_embeddings=True)\<close> when it was loaded, and the imported \<open>ollama_client\<close>.
  \<open>md5_hexdigest\<close> is \<open>hashlib.md5(s.encode()).hexdigest()\<close>.
\<close>

record VectorDB =
  client :: chroma
  embeddings_provider :: string
  embedding_model :: "(string list \<Rightarrow> error + real list list) option"
  ollama_client :: OllamaClient
  md5_hexdigest :: "string \<Rightarrow> string"
  distance :: "json \<Rightarrow> json \<Rightarrow> real"

definition get_or_create_collection :: "VectorDB \<Rightarrow> string \<Rightarrow> VectorDB \<times> collection" where
  "get_or_create_collection v name =
     (case chroma_get_or_create (client v) name of
        (cl, coll) \<Rightarrow> (v\<lparr>client := cl\<rparr>, coll))"

definition create_collection_name :: "VectorDB \<Rightarrow> string \<Rightarrow> string" where
  "create_collection_name v pdf_url = ''pdf_'' @ md5_hexdigest v pdf_url"

definition tolist :: "real list \<Rightarrow> json" where
  "tolist emb = JArr (map JNum emb)"

definition get_embeddings :: "VectorDB \<Rightarrow> string list \<Rightarrow> error + json list" where
  "get_embeddings v texts =
     (if embeddings_provider v = ''ollama'' then embeddings (ollama_client v) texts None
      else (case embedding_model v of
              None \<Rightarrow> Inl ModelNotInitialized
            | Some encode \<Rightarrow>
                (case encode texts of
                   Inl e \<Rightarrow> Inl e
                 | Inr embs \<Rightarrow> Inr (map tolist embs))))"

definition chunk_ids :: "nat \<Rightarrow> string list" where
  "chunk_ids n = map (\<lambda>i. ''chunk_'' @ str_nat i) [0..<n]"

definition default_metadata :: "nat \<Rightarrow> json list" where
  "default_metadata n = map (\<lambda>i. JObj [(''chunk_index'', JNum (real i))]) [0..<n]"

definition add_documents ::
  "VectorDB \<Rightarrow> string \<Rightarrow> string list \<Rightarrow> json list option \<Rightarrow> (error + string) \<times> VectorDB" where
  "add_documents v pdf_url chunks md =
     (let collection_name = create_collection_name v pdf_url in
      case get_or_create_collection v collection_name of
        (v1, coll) \<Rightarrow>
          (case get_embeddings v1 chunks of
             Inl e \<Rightarrow> (Inl e, v1)
           | Inr embs \<Rightarrow>
               (let ids = chunk_ids (length chunks);
                    metas = (case md of None \<Rightarrow> default_metadata (length chunks) | Some m \<Rightarrow> m)
                in case chroma_add coll embs chunks ids metas of
                     Inl e \<Rightarrow> (Inl e, v1)
                   | Inr coll' \<Rightarrow>
                       (Inr collection_name,
                        v1\<lparr>client := AList.update collection_name coll' (client v1)\<rparr>))))"

record search_results =
  documents :: "string list"
  distances :: "real list"
  metadatas :: "json list"

definition first_row :: "'a list list \<Rightarrow> 'a list" where
  "first_row rows = (case rows of [] \<Rightarrow> [] | r # _ \<Rightarrow> r)"

definition query_documents ::
  "VectorDB \<Rightarrow> string \<Rightarrow> string \<Rightarrow> int \<Rightarrow> (error + search_results) \<times> VectorDB" where
  "query_documents v pdf_url query n_results =
     (let collection_name = create_collection_name v pdf_url in
      case get_or_create_collection v collection_name of
        (v1, coll) \<Rightarrow>
          if length coll = 0
          then (Inr \<lparr>documents = [], distances = [], metadatas = []\<rparr>, v1)
          else (case get_embeddings v1 [query] of
                  Inl e \<Rightarrow> (Inl e, v1)
                | Inr embs \<Rightarrow>
                    (case py_getitem embs 0 of
                       Inl e \<Rightarrow> (Inl e, v1)
                     | Inr query_embedding \<Rightarrow>
                         (case chroma_query (distance v1) coll [query_embedding]
                                 (min n_results (int (length coll))) of
                            Inl e \<Rightarrow> (Inl e, v1)
                          | Inr results \<Rightarrow>
                              (Inr \<lparr>documents = first_row (res_documents results),
                                    distances = first_row (res_distances results),
                                    metadatas = first_row (res_metadatas results)\<rparr>, v1)))))"

definition collection_exists :: "VectorDB \<Rightarrow> string \<Rightarrow> bool" where
  "collection_exists v pdf_url =
     (let collection_name = create_collection_name v pdf_url
      in \<exists>col \<in> set (list_collections (client v)). col = collection_name)"

text \<open>\<open>collection_exists\<close> returns \<open>False\<close> when listing the collections raises; the
  modelled client never does, so that branch has no counterpart here.\<close>

section \<open>ai/qa.py: QASystem\<close>

record QASystem =
  qa_model :: string
  OLLAMA_TEMPERATURE :: real

text \<open>The returned dictionary; \<open>num_sources\<close> is absent from the answer given without
  contexts.\<close>

record answer =
  answer_text :: string
  sources :: "string list"
  confidence :: string
  num_sources :: "nat option"

definition no_context_answer :: answer where
  "no_context_answer =
     \<lparr>answer_text = ''I don't have enough context from this PDF to answer that question. Please make sure the PDF has been processed.'',
      sources = [], confidence = ''low'', num_sources = None\<rparr>"

definition last_exchange :: "message list option \<Rightarrow> message list" where
  "last_exchange h =
     (case h of
        None \<Rightarrow> []
      | Some hist \<Rightarrow> if hist \<noteq> [] then py_slice hist (- 2) (int (length hist)) else [])"

definition context_block :: "nat \<times> string \<Rightarrow> string" where
  "context_block ic = ''['' @ str_nat (fst ic + 1) @ ''] '' @ snd ic"

definition answer_question ::
  "QASystem \<Rightarrow> VectorDB \<Rightarrow> string \<Rightarrow> string \<Rightarrow> message list option
     \<Rightarrow> (error + answer) \<times> VectorDB" where
  "answer_question qa v pdf_url question conversation_history =
     (case query_documents v pdf_url question 2 of
        (Inl e, v') \<Rightarrow> (Inl (FailedToAnswer e), v')
      | (Inr results, v') \<Rightarrow>
          (let contexts = documents results in
           if contexts = [] then (Inr no_context_answer, v')
           else
             (let trimmed = map (take 300) contexts;
                  context_text = join_sep [CHR 0x0A] (map context_block (enumerate 0 trimmed));
                  msgs = [\<lparr>role = ''system'', content = ''Answer using ONLY the context. Be brief.''\<rparr>]
                         @ last_exchange conversation_history
                         @ [\<lparr>role = ''user'',
                             content = context_text @ [CHR 0x0A, CHR 0x0A] @ ''Q: '' @ question\<rparr>]
              in case chat (ollama_client v') msgs (Some (qa_model qa))
                        (Some (OLLAMA_TEMPERATURE qa)) (Some 200) of
                   Inl e \<Rightarrow> (Inl (FailedToAnswer e), v')
                 | Inr a \<Rightarrow>
                     (Inr \<lparr>answer_text = a, sources = take 3 contexts,
                           confidence = (if length contexts \<ge> 3 then ''high''
                                         else if length contexts \<ge> 1 then ''medium''
                                         else ''low''),
                           num_sources = Some (length contexts)\<rparr>, v'))))"

definition suggest_prompt :: "string \<Rightarrow> string" where
  "suggest_prompt sample =
     ''Based on this educational content, suggest 5 interesting questions a student might ask:''
     @ [CHR 0x0A, CHR 0x0A] @ ''Content:'' @ [CHR 0x0A] @ sample @ [CHR 0x0A, CHR 0x0A]
     @ ''Generate 5 specific, thoughtful questions that would help students understand this material better.''
     @ [CHR 0x0A]
     @ ''Format: Return only the questions, one per line, without numbering.''"

text \<open>The body of the \<open>try\<close> of \<open>get_suggested_questions\<close> (the chat call, then the
  lines of its reply), and the function with its \<open>except Exception: return []\<close>.\<close>

definition suggest_chat :: "QASystem \<Rightarrow> OllamaClient \<Rightarrow> string \<Rightarrow> error + string" where
  "suggest_chat qa c pdf_text_sample =
     (let sample = (if length pdf_text_sample > 5000 then take 5000 pdf_text_sample
                    else pdf_text_sample)
      in chat c
           [\<lparr>role = ''system'',
             content = ''You are an educational assistant helping students learn.''\<rparr>,
            \<lparr>role = ''user'', content = suggest_prompt sample\<rparr>]
           (Some (qa_model qa)) (Some (7 / 10)) (Some 300))"

definition suggested_body :: "QASystem \<Rightarrow> OllamaClient \<Rightarrow> string \<Rightarrow> error + string list" where
  "suggested_body qa c pdf_text_sample =
     (case suggest_chat qa c pdf_text_sample of
        Inl e \<Rightarrow> Inl e
      | Inr reply \<Rightarrow>
          (let questions = map strip (filter (\<lambda>q. strip q \<noteq> []) (split_on (CHR 0x0A) reply))
           in Inr (take 5 questions)))"

definition get_suggested_questions ::
  "QASystem \<Rightarrow> OllamaClient \<Rightarrow> string \<Rightarrow> error + string list" where
  "get_suggested_questions qa c pdf_text_sample =
     (case suggested_body qa c pdf_text_sample of
        Inl e \<Rightarrow> Inr []
      | Inr questions \<Rightarrow> Inr questions)"

section \<open>Predicates and sample inputs of the statements\<close>

text \<open>A handler with a small window, and the text of the end-to-end scenario.\<close>

definition small_handler :: PDFHandler where
  "small_handler = \<lparr>chunk_size = 20, chunk_overlap = 5\<rparr>"

definition cat_text :: string where
  "cat_text = ''The cat sat. The dog ran. Birds fly south.''"



text \<open>
  A line after which the loop of \<open>_stream_chat\<close> goes on to the next one: an empty line,
  or a decoded object whose \<open>message\<close> (when present) is an object and whose \<open>done\<close> is
  absent or falsy.
\<close>

fun keeps_reading :: "line \<Rightarrow> bool" where
  "keeps_reading Blank = True"
| "keeps_reading Malformed = False"
| "keeps_reading (Decoded chunk) =
     (case dict_get chunk ''message'' (JObj []) of
        Inl e \<Rightarrow> False
      | Inr msg \<Rightarrow>
          (case dict_get msg ''content'' (JStr '''') of
             Inl e \<Rightarrow> False
           | Inr token \<Rightarrow>
               (case dict_get chunk ''done'' JNull of
                  Inl e \<Rightarrow> False
                | Inr d \<Rightarrow> \<not> truthy d)))"

text \<open>The records of the streaming chat contract, a request and a backend that answers
  with a fixed stream.\<close>

definition fragment :: "string \<Rightarrow> line" where
  "fragment s = Decoded (JObj [(''message'', JObj [(''role'', JStr ''assistant''), (''content'', JStr s)]),
                              (''done'', JBool False)])"

definition done_record :: line where
  "done_record = Decoded (JObj [(''message'', JObj [(''role'', JStr ''assistant''), (''content'', JStr '''')]),
                               (''done'', JBool True)])"

definition hi_payload :: payload where
  "hi_payload = \<lparr>model = ''llama3.1:8b'', messages = [\<lparr>role = ''user'', content = ''hi''\<rparr>],
                  options = \<lparr>num_ctx = 2048, temperature = None, num_predict = Some 5\<rparr>,
                  stream = False\<rparr>"

definition answers :: "line list \<Rightarrow> stream_end \<Rightarrow> payload \<Rightarrow> http_stream" where
  "answers ls ending = (\<lambda>p. Response True ls ending)"

text \<open>
  A backend for the examples. The chat endpoint streams a fixed answer; the embedding
  endpoint answers a prompt with a one-component vector holding its length, and an empty
  prompt with a body that has no \<open>embedding\<close> field. The digests are those of MD5 on the
  two identifiers used.
\<close>

definition sample_post_json :: "string \<Rightarrow> string \<Rightarrow> error + json" where
  "sample_post_json m prompt =
     (if prompt = [] then Inr (JObj [])
      else Inr (JObj [(''embedding'', JArr [JNum (real (length prompt))])]))"

definition sample_client :: OllamaClient where
  "sample_client =
     \<lparr>default_model = ''llama3.1:8b'', OLLAMA_EMBEDDING_MODEL = ''nomic-embed-text'',
      post_chat = answers [fragment ''The dog'', fragment '' ran.'', done_record] Closed,
      post_json = sample_post_json\<rparr>"

definition sample_md5 :: "string \<Rightarrow> string" where
  "sample_md5 s = (if s = ''a'' then ''0cc175b9c0f1b6a831c399e269772661''
                   else ''92eb5ffee6ae2fec3ad71c777531578f'')"

fun first_component :: "json \<Rightarrow> real" where
  "first_component (JArr (JNum x # rest)) = x"
| "first_component j = 0"

definition sample_distance :: "json \<Rightarrow> json \<Rightarrow> real" where
  "sample_distance a b = \<bar>first_component a - first_component b\<bar>"

definition sample_db :: VectorDB where
  "sample_db =
     \<lparr>client = [], embeddings_provider = ''ollama'', embedding_model = None,
      ollama_client = sample_client, md5_hexdigest = sample_md5,
      distance = sample_distance\<rparr>"

definition sample_chunks :: "string list" where
  "sample_chunks = [''The cat sat.'', ''The dog ran.'', ''Birds fly south.'']"

definition sample_qa :: QASystem where
  "sample_qa = \<lparr>qa_model = ''llama3.1:8b'', OLLAMA_TEMPERATURE = 3 / 10\<rparr>"

text \<open>The sample index after the three sample chunks were added under the identifier
  \<open>a\<close>.\<close>

definition indexed_db :: VectorDB where
  "indexed_db = sample_db\<lparr>client :=
     [(''pdf_0cc175b9c0f1b6a831c399e269772661'',
       [(''chunk_0'', \<lparr>document = ''The cat sat.'', embedding = JArr [JNum 12],
                       metadata = JObj [(''chunk_index'', JNum 0)]\<rparr>),
        (''chunk_1'', \<lparr>document = ''The dog ran.'', embedding = JArr [JNum 12],
                       metadata = JObj [(''chunk_index'', JNum 1)]\<rparr>),
        (''chunk_2'', \<lparr>document = ''Birds fly south.'', embedding = JArr [JNum 16],
                       metadata = JObj [(''chunk_index'', JNum 2)]\<rparr>)])]\<rparr>"

text \<open>The record stored under an id in the collection of an identifier, if any.\<close>

definition stored :: "VectorDB \<Rightarrow> string \<Rightarrow> string \<Rightarrow> entry option" where
  "stored v pdf_url k =
     (case map_of (client v) (create_collection_name v pdf_url) of
        None \<Rightarrow> None
      | Some coll \<Rightarrow> map_of coll k)"

text \<open>A backend that sends the given lines and then nothing more, until the read
  timeout of the client expires.\<close>

definition goes_silent_after :: "line list \<Rightarrow> payload \<Rightarrow> http_stream" where
  "goes_silent_after ls = (\<lambda>p. requests_post (Streamed True ls ReadTimeoutError))"

text \<open>The sample index with a local model (two components per text), and a client
  whose chat endpoint streams six lines of questions.\<close>

definition local_db :: VectorDB where
  "local_db = sample_db\<lparr>embeddings_provider := ''sentence_transformers'',
                embedding_model := Some (\<lambda>texts. Inr (map (\<lambda>t. [real (length t), 1]) texts))\<rparr>"

definition questions_client :: OllamaClient where
  "questions_client = sample_client\<lparr>post_chat :=
     answers [fragment ''What sat?'', fragment [CHR 0x0A], fragment ''  Who ran? '',
              fragment [CHR 0x0A, CHR 0x0A], fragment ''Q3?'', fragment [CHR 0x0A],
              fragment ''Q4?'', fragment [CHR 0x0A], fragment ''Q5?'', fragment [CHR 0x0A],
              fragment ''Q6?'', done_record] Closed\<rparr>"

section \<open>The chunking loop\<close>

text \<open>One iteration of the loop, by the branch it takes.\<close>

lemma chunk_loop_keep:
  "start < int (length text) \<Longrightarrow> chunk_end h text start = Inr e \<Longrightarrow>
   strip (py_slice text start e) = piece \<Longrightarrow> piece \<noteq> [] \<Longrightarrow>
   chunk_loop h text start cid chunks =
   chunk_loop h text (e - chunk_overlap h) (cid + 1)
     (chunks @ [\<lparr>chunk_id = cid, chunk_str = piece, start_pos = start,
                 end_pos = e, chunk_len = length piece\<rparr>])"
  by (subst chunk_loop.simps) simp

lemma chunk_loop_skip:
  "start < int (length text) \<Longrightarrow> chunk_end h text start = Inr e \<Longrightarrow>
   strip (py_slice text start e) = [] \<Longrightarrow>
   chunk_loop h text start cid chunks = chunk_loop h text (e - chunk_overlap h) cid chunks"
  by (subst chunk_loop.simps) simp

lemma chunk_loop_exit:
  "\<not> start < int (length text) \<Longrightarrow> chunk_loop h text start cid chunks = Some (Inr chunks)"
  by (subst chunk_loop.simps) simp

lemma chunk_loop_raise:
  "start < int (length text) \<Longrightarrow> chunk_end h text start = Inl err \<Longrightarrow>
   chunk_loop h text start cid chunks = Some (Inl err)"
  by (subst chunk_loop.simps) simp

subsection \<open>A window of 20 with an overlap of 5\<close>

lemma cat_end_0: "chunk_end small_handler cat_text 0 = Inr 12"
  by code_simp

lemma cat_end_7: "chunk_end small_handler cat_text 7 = Inr 25"
  by code_simp

lemma cat_end_20: "chunk_end small_handler cat_text 20 = Inr 25"
  by code_simp

lemma cat_piece_0: "strip (py_slice cat_text 0 12) = ''The cat sat.''"
  by code_simp

lemma cat_piece_7: "strip (py_slice cat_text 7 25) = ''sat. The dog ran.''"
  by code_simp

lemma cat_piece_20: "strip (py_slice cat_text 20 25) = ''ran.''"
  by code_simp

text \<open>
  From start offset 20 the window ends at 40, inside the text; the nearest sentence end
  below it is the full stop at 24, so the end snaps back to 25 and the next start is
  \<open>25 - 5 = 20\<close> again. Each round appends the chunk \<open>ran.\<close> and the loop never leaves
  this offset.
\<close>

lemma cat_loop_stuck: "chunk_loop small_handler cat_text 20 cid chunks \<noteq> Some y"
proof
  assume returned: "chunk_loop small_handler cat_text 20 cid chunks = Some y"
  have inside: "(20::int) < int (length cat_text)"
    by (simp add: cat_text_def)
  have overlap: "chunk_overlap small_handler = 5"
    by (simp add: small_handler_def)
  have "\<not> (small_handler = small_handler \<and> cat_text = cat_text \<and> (20::int) = 20)"
  proof (rule chunk_loop.raw_induct
      [where P = "\<lambda>h t s c cs r. \<not> (h = small_handler \<and> t = cat_text \<and> s = 20)",
        OF _ returned])
    fix f h t s c cs r
    assume IH: "\<And>h t s c cs r. f h t s c cs = Some r
                  \<Longrightarrow> \<not> (h = small_handler \<and> t = cat_text \<and> s = 20)"
      and body: "(if s < int (length t)
          then case chunk_end h t s of Inl err \<Rightarrow> Some (Inl err)
               | Inr e \<Rightarrow>
                   let piece = strip (py_slice t s e)
                   in if piece \<noteq> []
                      then f h t (e - chunk_overlap h) (c + 1)
                            (cs @ [\<lparr>chunk_id = c, chunk_str = piece, start_pos = s,
                                    end_pos = e, chunk_len = length piece\<rparr>])
                      else f h t (e - chunk_overlap h) c cs
          else Some (Inr cs)) = Some r"
    show "\<not> (h = small_handler \<and> t = cat_text \<and> s = 20)"
    proof
      assume here: "h = small_handler \<and> t = cat_text \<and> s = 20"
      from body here inside
      have "f small_handler cat_text 20 (c + 1)
              (cs @ [\<lparr>chunk_id = c, chunk_str = ''ran.'', start_pos = 20, end_pos = 25,
                      chunk_len = length ''ran.''\<rparr>]) = Some r"
        by (simp add: cat_end_20 cat_piece_20 overlap)
      from IH [OF this] show False by simp
    qed
  qed
  then show False by simp
qed

text \<open>
  C4 (the claim: for every text and every configuration with \<open>0 \<le> overlap < chunk_size\<close>,
  \<open>chunk_text\<close> terminates, each iteration moving the start offset forward). On the text
  of the end-to-end scenario, with \<open>chunk_size = 20\<close> and \<open>overlap = 5\<close>, the loop of the
  source never returns: after the chunks starting at 0 and 7 it stays at offset 20.
\<close>

theorem chunk_text_does_not_return: "chunk_text small_handler cat_text = None"
proof -
  have l0: "(0::int) < int (length cat_text)" and l7: "(7::int) < int (length cat_text)"
    by (simp_all add: cat_text_def)
  have "chunk_text small_handler cat_text =
        chunk_loop small_handler cat_text (12 - chunk_overlap small_handler) (0 + 1)
          ([] @ [\<lparr>chunk_id = 0, chunk_str = ''The cat sat.'', start_pos = 0, end_pos = 12,
                  chunk_len = length ''The cat sat.''\<rparr>])"
    unfolding chunk_text_def by (rule chunk_loop_keep [OF l0 cat_end_0 cat_piece_0]) simp
  also have "12 - chunk_overlap small_handler = 7"
    by (simp add: small_handler_def)
  also have "chunk_loop small_handler cat_text 7 (0 + 1)
          ([] @ [\<lparr>chunk_id = 0, chunk_str = ''The cat sat.'', start_pos = 0, end_pos = 12,
                  chunk_len = length ''The cat sat.''\<rparr>]) =
        chunk_loop small_handler cat_text (25 - chunk_overlap small_handler) (0 + 1 + 1)
          (([] @ [\<lparr>chunk_id = 0, chunk_str = ''The cat sat.'', start_pos = 0, end_pos = 12,
                   chunk_len = length ''The cat sat.''\<rparr>])
           @ [\<lparr>chunk_id = 0 + 1, chunk_str = ''sat. The dog ran.'', start_pos = 7,
                end_pos = 25, chunk_len = length ''sat. The dog ran.''\<rparr>])"
    by (rule chunk_loop_keep [OF l7 cat_end_7 cat_piece_7]) simp
  also have "25 - chunk_overlap small_handler = 20"
    by (simp add: small_handler_def)
  finally show ?thesis
    using cat_loop_stuck by (metis option.exhaust)
qed

subsection \<open>The end of the last window\<close>

lemma find_break_result:
  "find_break text is e = Inr r \<Longrightarrow> r = e \<or> (\<exists>i \<in> set is. r = i + 1)"
  by (induction "is") (auto split: sum.splits if_splits)













subsection \<open>Configurations on which the loop returns\<close>

text \<open>
  When the overlap is non-negative and more than 98 below the window size (as in the
  default configuration, 200 and 1000), every iteration moves the start offset forward,
  no index is out of range, and \<open>chunk_text\<close> returns a list for every text.
\<close>

lemma find_break_returns:
  "\<forall>i \<in> set is. 0 \<le> i \<and> i < int (length text) \<Longrightarrow> \<exists>r. find_break text is e = Inr r"
  by (induction "is") (auto simp: py_getitem_def)

lemma chunk_end_returns:
  assumes "0 \<le> start"
  shows "\<exists>e. chunk_end h text start = Inr e \<and>
           (e = start + chunk_size h \<or> start + chunk_size h - 98 \<le> e)"
proof (cases "start + chunk_size h < int (length text)")
  case False
  then show ?thesis by (simp add: chunk_end_def Let_def)
next
  case True
  let ?w = "start + chunk_size h"
  let ?is = "range_down ?w (max start (?w - 100))"
  have "\<forall>i \<in> set ?is. 0 \<le> i \<and> i < int (length text)"
    using True assms by (auto simp: range_down_def)
  from find_break_returns [OF this] obtain r where r: "find_break text ?is ?w = Inr r"
    by blast
  from find_break_result [OF r] have "r = ?w \<or> ?w - 98 \<le> r"
    by (auto simp: range_down_def)
  with r True show ?thesis by (simp add: chunk_end_def Let_def)
qed

lemma chunk_loop_returns:
  assumes "0 \<le> chunk_overlap h" and "chunk_overlap h + 98 < chunk_size h"
  shows "0 \<le> start \<Longrightarrow> \<exists>r. chunk_loop h text start cid chunks = Some (Inr r)"
proof (induction "nat (int (length text) - start)" arbitrary: start cid chunks rule: less_induct)
  case less
  show ?case
  proof (cases "start < int (length text)")
    case False
    then show ?thesis by (simp add: chunk_loop_exit)
  next
    case True
    from chunk_end_returns [OF less.prems, of h "text"] obtain e
      where e: "chunk_end h text start = Inr e"
        and far: "e = start + chunk_size h \<or> start + chunk_size h - 98 \<le> e"
      by blast
    from far assms have forward: "start < e - chunk_overlap h" by auto
    then have smaller: "nat (int (length text) - (e - chunk_overlap h)) < nat (int (length text) - start)"
      using True by simp
    from forward less.prems have nonneg: "0 \<le> e - chunk_overlap h" by simp
    show ?thesis
    proof (cases "strip (py_slice text start e) = []")
      case True
      from less.hyps [OF smaller nonneg, of cid chunks]
      show ?thesis by (simp add: chunk_loop_skip [OF \<open>start < int (length text)\<close> e True])
    next
      case False
      from less.hyps [OF smaller nonneg]
      show ?thesis by (simp add: chunk_loop_keep [OF \<open>start < int (length text)\<close> e refl False])
    qed
  qed
qed

lemma chunk_text_returns:
  "0 \<le> chunk_overlap h \<Longrightarrow> chunk_overlap h + 98 < chunk_size h \<Longrightarrow>
   \<exists>r. chunk_text h text = Some (Inr r)"
  unfolding chunk_text_def by (rule chunk_loop_returns) simp_all

lemma default_chunk_text_returns: "\<exists>r. chunk_text pdf_handler text = Some (Inr r)"
  by (rule chunk_text_returns) (simp_all add: pdf_handler_def)

section \<open>The streaming chat client\<close>

lemma read_lines_blank:
  "read_lines (pre @ Blank # rest) ending parts = read_lines (pre @ rest) ending parts"
proof (induction pre arbitrary: parts)
  case Nil
  show ?case by simp
next
  case (Cons l pre)
  show ?case
  proof (cases l)
    case Blank
    then show ?thesis using Cons.IH by simp
  next
    case Malformed
    then show ?thesis by simp
  next
    case (Decoded chunk)
    then show ?thesis using Cons.IH by (simp split: sum.splits)
  qed
qed

lemma read_lines_malformed:
  "list_all keeps_reading pre \<Longrightarrow>
   \<exists>parts'. read_lines (pre @ Malformed # rest) ending parts = (parts', Some JSONDecodeError)"
proof (induction pre arbitrary: parts)
  case Nil
  show ?case by simp
next
  case (Cons l pre)
  show ?case
  proof (cases l)
    case Blank
    then show ?thesis using Cons by simp
  next
    case Malformed
    then show ?thesis by simp
  next
    case (Decoded chunk)
    then show ?thesis using Cons by (auto split: sum.splits simp: Let_def)
  qed
qed

lemma handle_json_error: "handle_exc JSONDecodeError parts = Inl JSONDecodeError"
  by (simp add: handle_exc_def is_ConnectionError_def is_Timeout_def)

text \<open>
  C1, as amended: when the response body contains a line that is not valid JSON and the
  loop reaches it (every line before it is read without leaving the loop), \<open>json.loads\<close>
  raises, no \<open>except\<close> clause of \<open>_stream_chat\<close> catches the exception, and the chat call
  fails with it; the lines after it are not read. Only an empty line is skipped
  silently: the call then returns what it returns on the stream without that line.
\<close>

theorem malformed_line_aborts_stream:
  assumes "post (p\<lparr>stream := True\<rparr>) = Response True (pre @ l # rest) ending"
    and "list_all keeps_reading pre"
  shows "(l = Malformed \<longrightarrow> stream_chat post p = Inl JSONDecodeError) \<and>
         (l = Blank \<longrightarrow> stream_chat post p = stream_chat (answers (pre @ rest) ending) p)"
proof (intro conjI impI)
  assume "l = Malformed"
  with read_lines_malformed [OF assms(2), of rest ending "[]"] assms(1)
  show "stream_chat post p = Inl JSONDecodeError"
    by (auto simp: stream_chat_def handle_json_error)
next
  assume "l = Blank"
  with assms(1) show "stream_chat post p = stream_chat (answers (pre @ rest) ending) p"
    by (simp add: stream_chat_def answers_def read_lines_blank)
qed

theorem malformed_line_aborts_stream_witness:
  "stream_chat (answers ([fragment ''Hel''] @ Malformed # [fragment ''lo'', done_record]) Closed)
     hi_payload = Inl JSONDecodeError
   \<and> stream_chat (answers ([fragment ''Hel''] @ Blank # [fragment ''lo'', done_record]) Closed)
       hi_payload
     = stream_chat (answers ([fragment ''Hel''] @ [fragment ''lo'', done_record]) Closed)
         hi_payload"
  using malformed_line_aborts_stream
    [of "answers ([fragment ''Hel''] @ Malformed # [fragment ''lo'', done_record]) Closed"
        hi_payload "[fragment ''Hel'']" Malformed "[fragment ''lo'', done_record]" Closed]
    malformed_line_aborts_stream
    [of "answers ([fragment ''Hel''] @ Blank # [fragment ''lo'', done_record]) Closed"
        hi_payload "[fragment ''Hel'']" Blank "[fragment ''lo'', done_record]" Closed]
  by (simp add: answers_def fragment_def)

text \<open>C1 as stated fails: a malformed line between two fragments makes the call raise,
  where the same stream without it gives the answer.\<close>

theorem malformed_line_counterexample:
  "stream_chat (answers [fragment ''Hel'', Malformed, fragment ''lo'', done_record] Closed)
     hi_payload = Inl JSONDecodeError
   \<and> stream_chat (answers [fragment ''Hel'', fragment ''lo'', done_record] Closed) hi_payload
     = Inr ''Hello''"
  by code_simp

lemma handle_connection_error: "handle_exc ConnectionError parts = Inl CannotConnect"
  by (simp add: handle_exc_def is_ConnectionError_def)

text \<open>
  A read timeout on the body reaches \<open>_stream_chat\<close> as \<open>ConnectionError\<close>, so the first
  \<open>except\<close> clause takes it whatever was accumulated, and the clause for \<open>Timeout\<close> with
  its partial answer is never entered from the loop.
\<close>

lemma silent_backend_cannot_connect:
  assumes "read_lines ls (Raises ConnectionError) [] = (parts, Some ConnectionError)"
  shows "stream_chat (goes_silent_after ls) p = Inl CannotConnect"
  using assms
  by (simp add: stream_chat_def goes_silent_after_def handle_connection_error)

text \<open>
  C2 (the claim: when a read timeout occurs while streaming, the chat call returns the
  concatenation of the fragments accumulated so far, and raises a timeout error when
  there are none). The backend sends three fragments and then goes silent until the read
  timeout expires: the call raises "Cannot connect to Ollama" and the three fragments
  are lost; with no fragment it raises the same error, not the timeout error. Only a
  read timeout before the response arrives raises the timeout error.
\<close>

theorem read_timeout_loses_fragments:
  "stream_chat (goes_silent_after [fragment '' Paris'', fragment '' is the'', fragment '' capital.''])
     hi_payload = Inl CannotConnect
   \<and> stream_chat (goes_silent_after []) hi_payload = Inl CannotConnect
   \<and> stream_chat (\<lambda>p. requests_post (NoResponse ReadTimeout)) hi_payload = Inl OllamaTimedOut"
  by code_simp

section \<open>The vector index\<close>

lemma get_or_create_absent:
  "map_of (client v) name = None \<Longrightarrow>
   get_or_create_collection v name = (v\<lparr>client := client v @ [(name, [])]\<rparr>, [])"
  by (simp add: get_or_create_collection_def chroma_get_or_create_def)

lemma get_or_create_present:
  "map_of (client v) name = Some coll \<Longrightarrow> get_or_create_collection v name = (v, coll)"
  by (simp add: get_or_create_collection_def chroma_get_or_create_def)

lemma collection_exists_iff:
  "collection_exists v pdf_url \<longleftrightarrow> map_of (client v) (create_collection_name v pdf_url) \<noteq> None"
  by (auto simp: collection_exists_def list_collections_def Let_def map_of_eq_None_iff)

lemma query_documents_client:
  "client (snd (query_documents v pdf_url query n)) =
     (case map_of (client v) (create_collection_name v pdf_url) of
        None \<Rightarrow> client v @ [(create_collection_name v pdf_url, [])]
      | Some coll \<Rightarrow> client v)"
proof (cases "map_of (client v) (create_collection_name v pdf_url)")
  case None
  then show ?thesis
    by (simp add: query_documents_def Let_def get_or_create_absent)
next
  case (Some coll)
  then show ?thesis
    by (simp add: query_documents_def Let_def get_or_create_present split: sum.splits)
qed

lemma query_documents_name:
  "create_collection_name (snd (query_documents v pdf_url query n)) u = create_collection_name v u"
proof (cases "map_of (client v) (create_collection_name v pdf_url)")
  case None
  then show ?thesis
    by (simp add: query_documents_def Let_def get_or_create_absent create_collection_name_def)
next
  case (Some coll)
  then show ?thesis
    by (simp add: query_documents_def Let_def get_or_create_present create_collection_name_def
        split: sum.splits)
qed

lemma nearest_length: "length (nearest metric coll q n) \<le> n"
  by (simp add: nearest_def)

lemma query_documents_at_most:
  assumes "fst (query_documents v pdf_url query n) = Inr r"
  shows "length (documents r) \<le> nat n"
proof -
  obtain v1 coll where g: "get_or_create_collection v (create_collection_name v pdf_url) = (v1, coll)"
    by (cases "get_or_create_collection v (create_collection_name v pdf_url)")
  show ?thesis
  proof (cases "length coll = 0")
    case True
    with assms g show ?thesis by (auto simp: query_documents_def Let_def)
  next
    case False
    with assms g obtain embs qe res where
      "get_embeddings v1 [query] = Inr embs" "py_getitem embs 0 = Inr qe"
      and q: "chroma_query (distance v1) coll [qe] (min n (int (length coll))) = Inr res"
      and r: "r = \<lparr>documents = first_row (res_documents res),
                    distances = first_row (res_distances res),
                    metadatas = first_row (res_metadatas res)\<rparr>"
      by (auto simp: query_documents_def Let_def split: sum.splits)
    from q have "first_row (res_documents res)
        = map document (nearest (distance v1) coll qe (nat (min n (int (length coll)))))"
      by (auto simp: chroma_query_def first_row_def split: if_splits)
    with r have "length (documents r) \<le> nat (min n (int (length coll)))"
      by (simp add: nearest_length)
    then show ?thesis by simp
  qed
qed

text \<open>
  C7: for every identifier and query, when the collection of the identifier does not
  exist or holds no item, \<open>query_documents\<close> returns the result with empty \<open>documents\<close>,
  \<open>distances\<close> and \<open>metadatas\<close>, and raises nothing.
\<close>

theorem query_empty_or_missing:
  assumes "map_of (client v) (create_collection_name v pdf_url) = None \<or>
           map_of (client v) (create_collection_name v pdf_url) = Some []"
  shows "fst (query_documents v pdf_url query n_results)
         = Inr \<lparr>documents = [], distances = [], metadatas = []\<rparr>"
  using assms
  by (auto simp: query_documents_def Let_def get_or_create_absent get_or_create_present)

theorem query_empty_or_missing_witness:
  "map_of (client sample_db) (create_collection_name sample_db ''a'') = None \<and>
   fst (query_documents sample_db ''a'' ''What did the dog do?'' 5)
     = Inr \<lparr>documents = [], distances = [], metadatas = []\<rparr>"
proof -
  have missing: "map_of (client sample_db) (create_collection_name sample_db ''a'') = None"
    by (simp add: sample_db_def)
  from query_empty_or_missing [of sample_db "''a''", OF disjI1, OF missing] missing
  show ?thesis by simp
qed

text \<open>
  C8, as amended: an existence check reads the list of collections and changes nothing;
  a search on an identifier that has a collection leaves the stored collections as they
  are; a search on an identifier without a collection (never upserted) creates an empty
  collection for that identifier, and only that one, after which the existence check
  for the identifier is true.
\<close>

theorem search_creates_collection:
  "client (snd (query_documents v pdf_url query n))
     = (if collection_exists v pdf_url then client v
        else client v @ [(create_collection_name v pdf_url, [])])
   \<and> collection_exists (snd (query_documents v pdf_url query n)) pdf_url"
proof (cases "map_of (client v) (create_collection_name v pdf_url)")
  case None
  then show ?thesis
    by (simp add: collection_exists_iff query_documents_client query_documents_name)
next
  case (Some coll)
  then show ?thesis
    by (simp add: collection_exists_iff query_documents_client query_documents_name)
qed

theorem search_creates_collection_witness:
  "\<not> collection_exists sample_db ''a'' \<and>
   client (snd (query_documents sample_db ''a'' ''What did the dog do?'' 2))
     = [(''pdf_0cc175b9c0f1b6a831c399e269772661'', [])] \<and>
   collection_exists indexed_db ''a'' \<and>
   client (snd (query_documents indexed_db ''a'' ''What did the dog do?'' 2)) = client indexed_db"
proof -
  have absent: "\<not> collection_exists sample_db ''a''"
    by (simp add: collection_exists_iff sample_db_def)
  have present: "collection_exists indexed_db ''a''"
    by (simp add: collection_exists_iff indexed_db_def sample_db_def create_collection_name_def
        sample_md5_def)
  from search_creates_collection [of sample_db "''a''" "''What did the dog do?''" 2]
    search_creates_collection [of indexed_db "''a''" "''What did the dog do?''" 2]
    absent present
  show ?thesis
    by (simp add: sample_db_def create_collection_name_def sample_md5_def)
qed

text \<open>C8 as stated fails: a search on an identifier that was never upserted adds a
  collection to an empty store.\<close>

theorem search_creates_collection_counterexample:
  "list_collections (client sample_db) = [] \<and>
   list_collections (client (snd (query_documents sample_db ''a'' ''What did the dog do?'' 2)))
     = [''pdf_0cc175b9c0f1b6a831c399e269772661'']"
  by code_simp

section \<open>The answerer\<close>

text \<open>
  C3: for every identifier, question and history, the \<open>confidence\<close> of a result returned
  by \<open>answer_question\<close> is never \<open>high\<close>: the search is made with \<open>n_results = 2\<close> and
  returns at most 2 contexts, and the confidence is \<open>medium\<close> for 1 or 2 contexts and
  \<open>low\<close> for none.
\<close>

theorem confidence_never_high:
  assumes "fst (answer_question qa v pdf_url question history) = Inr a"
  shows "confidence a \<noteq> ''high'' \<and>
         (\<exists>r. fst (query_documents v pdf_url question 2) = Inr r \<and>
              length (documents r) \<le> 2 \<and>
              confidence a = (if length (documents r) = 0 then ''low'' else ''medium''))"
proof -
  obtain res v' where q: "query_documents v pdf_url question 2 = (res, v')"
    by (cases "query_documents v pdf_url question 2")
  with assms obtain r where r: "res = Inr r"
    by (cases res) (auto simp: answer_question_def)
  from q r have fq: "fst (query_documents v pdf_url question 2) = Inr r" by simp
  from query_documents_at_most [OF fq] have le: "length (documents r) \<le> 2" by simp
  have "confidence a = (if length (documents r) = 0 then ''low'' else ''medium'')"
  proof (cases "documents r = []")
    case True
    with assms q r show ?thesis
      by (auto simp: answer_question_def no_context_answer_def)
  next
    case False
    then have "1 \<le> length (documents r)" by (cases "documents r") simp_all
    with False assms q r le show ?thesis
      by (auto simp: answer_question_def Let_def split: sum.splits)
  qed
  with fq le show ?thesis by auto
qed

theorem confidence_never_high_witness:
  "fst (answer_question sample_qa indexed_db ''a'' ''What did the dog do?'' None)
     = Inr \<lparr>answer_text = ''The dog ran.'', sources = [''Birds fly south.'', ''The cat sat.''],
            confidence = ''medium'', num_sources = Some 2\<rparr>
   \<and> confidence \<lparr>answer_text = ''The dog ran.'',
                  sources = [''Birds fly south.'', ''The cat sat.''],
                  confidence = ''medium'', num_sources = Some 2\<rparr> \<noteq> ''high''"
proof -
  have run: "fst (answer_question sample_qa indexed_db ''a'' ''What did the dog do?'' None)
     = Inr \<lparr>answer_text = ''The dog ran.'', sources = [''Birds fly south.'', ''The cat sat.''],
            confidence = ''medium'', num_sources = Some 2\<rparr>"
    by code_simp
  from confidence_never_high [OF run] run show ?thesis by simp
qed

section \<open>Adding the same chunks again\<close>

lemma map_of_snoc:
  "map_of (al @ [(k, v)]) k' =
     (case map_of al k' of None \<Rightarrow> (if k' = k then Some v else None) | Some x \<Rightarrow> Some x)"
  by (simp add: map_add_def split: option.splits)

lemma map_of_add_record:
  "map_of (add_record r coll) k =
     (case map_of coll k of
        Some old \<Rightarrow> Some old
      | None \<Rightarrow> if k = fst r then Some (snd r) else None)"
  by (cases r) (auto simp: add_record_def map_of_snoc simp del: map_of_append split: option.splits)

text \<open>What a batch leaves under each id: the record stored before, or else the first
  record of the batch with that id.\<close>

lemma map_of_fold_add_record:
  "map_of (fold add_record rs coll) k =
     (case map_of coll k of Some old \<Rightarrow> Some old | None \<Rightarrow> map_of rs k)"
proof (induction rs arbitrary: coll)
  case Nil
  show ?case by (simp split: option.splits)
next
  case (Cons r rs)
  show ?case
    by (cases r) (simp add: Cons.IH map_of_add_record split: option.splits)
qed

lemma add_record_present: "map_of coll (fst r) \<noteq> None \<Longrightarrow> add_record r coll = coll"
  by (auto simp: add_record_def split: option.splits)

lemma fold_add_record_present:
  "(\<And>r. r \<in> set rs \<Longrightarrow> map_of coll (fst r) \<noteq> None) \<Longrightarrow> fold add_record rs coll = coll"
  by (induction rs) (simp_all add: add_record_present)

lemma fold_add_twice:
  "fold add_record rs (fold add_record rs coll) = fold add_record rs coll"
proof (rule fold_add_record_present)
  fix r
  assume "r \<in> set rs"
  then have "map_of rs (fst r) \<noteq> None"
    by (metis domIff dom_map_of_conv_image_fst image_eqI)
  then show "map_of (fold add_record rs coll) (fst r) \<noteq> None"
    by (simp add: map_of_fold_add_record split: option.splits)
qed

lemma chroma_add_records:
  assumes "chroma_add coll embs docs ids metas = Inr coll'"
  shows "map_of coll' k =
     (case map_of coll k of
        Some old \<Rightarrow> Some old
      | None \<Rightarrow> map_of (zip ids (map (\<lambda>(d, e, m). \<lparr>document = d, embedding = e, metadata = m\<rparr>)
                                    (zip docs (zip embs metas)))) k)"
  using assms by (auto simp: chroma_add_def map_of_fold_add_record split: if_splits)

lemma chroma_add_new_id:
  assumes "chroma_add coll embs docs ids metas = Inr coll'"
    and "i < length ids" and "map_of coll (ids ! i) = None"
  shows "map_of coll' (ids ! i)
         = Some \<lparr>document = docs ! i, embedding = embs ! i, metadata = metas ! i\<rparr>"
proof -
  let ?es = "map (\<lambda>(d, e, m). \<lparr>document = d, embedding = e, metadata = m\<rparr>)
               (zip docs (zip embs metas))"
  from assms(1) have ok: "distinct ids" "length embs = length ids"
      "length docs = length ids" "length metas = length ids"
    by (auto simp: chroma_add_def split: if_splits)
  then have len: "length ids = length ?es" by simp
  from ok assms(2) have "?es ! i = \<lparr>document = docs ! i, embedding = embs ! i, metadata = metas ! i\<rparr>"
    by simp
  moreover from len ok(1) assms(2) have "map_of (zip ids ?es) (ids ! i) = Some (?es ! i)"
    by (intro map_of_zip_nth) simp_all
  ultimately show ?thesis
    using chroma_add_records [OF assms(1), of "ids ! i"] assms(3) by simp
qed

lemma chroma_add_twice:
  assumes "chroma_add coll embs docs ids metas = Inr coll'"
  shows "chroma_add coll' embs docs ids metas = Inr coll'"
proof -
  from assms have "coll' = fold add_record
      (zip ids (map (\<lambda>(d, e, m). \<lparr>document = d, embedding = e, metadata = m\<rparr>)
                 (zip docs (zip embs metas)))) coll"
    and "\<not> (ids = [] \<or> \<not> distinct ids \<or> length embs \<noteq> length ids \<or> length docs \<noteq> length ids
         \<or> length metas \<noteq> length ids \<or> list_ex empty_vector embs)"
    by (auto simp only: chroma_add_def split: if_splits)
  then show ?thesis
    by (simp only: chroma_add_def fold_add_twice if_False)
qed

lemma get_embeddings_client [simp]: "get_embeddings (v\<lparr>client := cl\<rparr>) texts = get_embeddings v texts"
  by (simp add: get_embeddings_def)

lemma create_collection_name_client [simp]:
  "create_collection_name (v\<lparr>client := cl\<rparr>) u = create_collection_name v u"
  by (simp add: create_collection_name_def)

lemma get_or_create_result:
  assumes "get_or_create_collection v name = (v1, coll)"
  shows "v1 = v\<lparr>client := client v1\<rparr>" and "map_of (client v1) name = Some coll"
    and "map_of (client v) name = None \<Longrightarrow> coll = []"
    and "map_of (client v) name = Some c \<Longrightarrow> coll = c"
  using assms
  by (auto simp: get_or_create_collection_def chroma_get_or_create_def map_of_snoc
      simp del: map_of_append split: option.splits)

lemma length_chunk_ids [simp]: "length (chunk_ids n) = n"
  by (simp add: chunk_ids_def)

text \<open>
  C6, as amended: \<open>add_documents\<close> is idempotent and does not overwrite. A second call
  with identical arguments returns what the first returned and leaves the store, and so
  the result of every later search, as the first left them. A record already stored
  under a chunk id stays as it is, whatever the call carries for that id; a chunk id not
  yet stored receives the chunk, its vector and its metadata.
\<close>

theorem add_documents_keeps_stored:
  "add_documents (snd (add_documents v pdf_url chunks md)) pdf_url chunks md
     = add_documents v pdf_url chunks md
   \<and> query_documents (snd (add_documents (snd (add_documents v pdf_url chunks md)) pdf_url chunks md))
        pdf_url query n
     = query_documents (snd (add_documents v pdf_url chunks md)) pdf_url query n
   \<and> (\<forall>k old. stored v pdf_url k = Some old \<longrightarrow>
         stored (snd (add_documents v pdf_url chunks md)) pdf_url k = Some old)
   \<and> (\<forall>name i. fst (add_documents v pdf_url chunks md) = Inr name \<and> i < length chunks \<and>
         stored v pdf_url (chunk_ids (length chunks) ! i) = None \<longrightarrow>
         (\<exists>embs. get_embeddings v chunks = Inr embs \<and>
            stored (snd (add_documents v pdf_url chunks md)) pdf_url (chunk_ids (length chunks) ! i)
              = Some \<lparr>document = chunks ! i, embedding = embs ! i,
                      metadata = (case md of None \<Rightarrow> default_metadata (length chunks)
                                  | Some m \<Rightarrow> m) ! i\<rparr>))"
proof -
  let ?name = "create_collection_name v pdf_url"
  let ?ids = "chunk_ids (length chunks)"
  let ?metas = "case md of None \<Rightarrow> default_metadata (length chunks) | Some m \<Rightarrow> m"
  obtain v1 coll where g: "get_or_create_collection v ?name = (v1, coll)"
    by (cases "get_or_create_collection v ?name")
  from get_or_create_result [OF g] have v1: "v1 = v\<lparr>client := client v1\<rparr>"
    and held: "map_of (client v1) ?name = Some coll"
    and fresh: "map_of (client v) ?name = None \<Longrightarrow> coll = []"
    and old: "\<And>c. map_of (client v) ?name = Some c \<Longrightarrow> coll = c"
    by auto
  have name1: "create_collection_name v1 pdf_url = ?name"
    by (subst v1) simp
  have emb1: "get_embeddings v1 chunks = get_embeddings v chunks"
    by (subst v1) simp
  have g1: "get_or_create_collection v1 ?name = (v1, coll)"
    using held by (rule get_or_create_present)
  have before: "stored v pdf_url k = map_of coll k" for k
    using fresh old by (cases "map_of (client v) ?name") (simp_all add: stored_def)
  have at1: "stored v1 pdf_url k = map_of coll k" for k
    using held name1 by (simp add: stored_def)
  show ?thesis
  proof (cases "get_embeddings v chunks")
    case (Inl e)
    with g emb1 have first: "add_documents v pdf_url chunks md = (Inl e, v1)"
      by (simp add: add_documents_def Let_def)
    from Inl g1 name1 emb1 have "add_documents v1 pdf_url chunks md = (Inl e, v1)"
      by (simp add: add_documents_def Let_def)
    with first before at1 show ?thesis by simp
  next
    case (Inr embs)
    show ?thesis
    proof (cases "chroma_add coll embs chunks ?ids ?metas")
      case (Inl e)
      with Inr g emb1 have first: "add_documents v pdf_url chunks md = (Inl e, v1)"
        by (simp add: add_documents_def Let_def)
      from Inl Inr g1 name1 emb1 have "add_documents v1 pdf_url chunks md = (Inl e, v1)"
        by (simp add: add_documents_def Let_def)
      with first before at1 show ?thesis by simp
    next
      case added: (Inr coll')
      let ?v2 = "v1\<lparr>client := AList.update ?name coll' (client v1)\<rparr>"
      from Inr added g emb1 have first: "add_documents v pdf_url chunks md = (Inr ?name, ?v2)"
        by (simp add: add_documents_def Let_def)
      have held2: "map_of (client ?v2) ?name = Some coll'"
        by (simp add: update_conv')
      have g2: "get_or_create_collection ?v2 ?name = (?v2, coll')"
        using held2 by (rule get_or_create_present)
      have name2: "create_collection_name ?v2 pdf_url = ?name"
        using name1 by simp
      have emb2: "get_embeddings ?v2 chunks = Inr embs"
        using emb1 Inr by simp
      have same: "?v2\<lparr>client := AList.update ?name coll' (client ?v2)\<rparr> = ?v2"
        by simp
      from chroma_add_twice [OF added] g2 name2 emb2 same
      have second: "add_documents ?v2 pdf_url chunks md = (Inr ?name, ?v2)"
        by (simp add: add_documents_def Let_def)
      have at2: "stored ?v2 pdf_url k = map_of coll' k" for k
        using held2 name2 by (simp add: stored_def)
      have kept: "stored ?v2 pdf_url k = Some r" if "stored v pdf_url k = Some r" for k r
        using that chroma_add_records [OF added, of k] by (simp add: at2 before)
      have new: "stored ?v2 pdf_url (?ids ! i)
              = Some \<lparr>document = chunks ! i, embedding = embs ! i, metadata = ?metas ! i\<rparr>"
        if "i < length chunks" "stored v pdf_url (?ids ! i) = None" for i
        using that chroma_add_new_id [OF added, of i] by (simp add: at2 before)
      from first second kept new Inr show ?thesis by simp
    qed
  qed
qed


theorem add_documents_keeps_stored_witness:
  "add_documents (snd (add_documents sample_db ''a'' sample_chunks None)) ''a'' sample_chunks None
     = add_documents sample_db ''a'' sample_chunks None
   \<and> stored (snd (add_documents sample_db ''a'' sample_chunks None)) ''a'' ''chunk_1''
     = Some \<lparr>document = ''The dog ran.'', embedding = JArr [JNum 12],
             metadata = JObj [(''chunk_index'', JNum 1)]\<rparr>
   \<and> stored (snd (add_documents indexed_db ''a'' [''AAAA'', ''BB''] None)) ''a'' ''chunk_1''
     = Some \<lparr>document = ''The dog ran.'', embedding = JArr [JNum 12],
             metadata = JObj [(''chunk_index'', JNum 1)]\<rparr>"
proof -
  have ok: "fst (add_documents sample_db ''a'' sample_chunks None)
              = Inr ''pdf_0cc175b9c0f1b6a831c399e269772661''"
    by code_simp
  have i: "(1::nat) < length sample_chunks"
    by (simp add: sample_chunks_def)
  have id: "chunk_ids (length sample_chunks) ! 1 = ''chunk_1''"
    by code_simp
  have fresh: "stored sample_db ''a'' ''chunk_1'' = None"
    by code_simp
  have embs: "get_embeddings sample_db sample_chunks
              = Inr [JArr [JNum 12], JArr [JNum 12], JArr [JNum 16]]"
    by code_simp
  have new: "\<lparr>document = sample_chunks ! 1,
              embedding = [JArr [JNum 12], JArr [JNum 12], JArr [JNum 16]] ! 1,
              metadata = default_metadata (length sample_chunks) ! 1\<rparr>
            = \<lparr>document = ''The dog ran.'', embedding = JArr [JNum 12],
               metadata = JObj [(''chunk_index'', JNum 1)]\<rparr>"
    by code_simp
  have held: "stored indexed_db ''a'' ''chunk_1''
     = Some \<lparr>document = ''The dog ran.'', embedding = JArr [JNum 12],
             metadata = JObj [(''chunk_index'', JNum 1)]\<rparr>"
    by code_simp
  from add_documents_keeps_stored [of sample_db "''a''" sample_chunks None]
  have twice: "add_documents (snd (add_documents sample_db ''a'' sample_chunks None)) ''a'' sample_chunks None
     = add_documents sample_db ''a'' sample_chunks None"
    and fill: "\<And>name i. fst (add_documents sample_db ''a'' sample_chunks None) = Inr name \<Longrightarrow>
         i < length sample_chunks \<Longrightarrow>
         stored sample_db ''a'' (chunk_ids (length sample_chunks) ! i) = None \<Longrightarrow>
         (\<exists>embs. get_embeddings sample_db sample_chunks = Inr embs \<and>
            stored (snd (add_documents sample_db ''a'' sample_chunks None)) ''a''
                (chunk_ids (length sample_chunks) ! i)
              = Some \<lparr>document = sample_chunks ! i, embedding = embs ! i,
                      metadata = default_metadata (length sample_chunks) ! i\<rparr>)"
    by simp_all
  from fill [OF ok i] fresh id embs new
  have stored_new: "stored (snd (add_documents sample_db ''a'' sample_chunks None)) ''a'' ''chunk_1''
     = Some \<lparr>document = ''The dog ran.'', embedding = JArr [JNum 12],
             metadata = JObj [(''chunk_index'', JNum 1)]\<rparr>"
    by auto
  from add_documents_keeps_stored [of indexed_db "''a''" "[''AAAA'', ''BB'']" None] held
  have kept: "stored (snd (add_documents indexed_db ''a'' [''AAAA'', ''BB''] None)) ''a'' ''chunk_1''
     = Some \<lparr>document = ''The dog ran.'', embedding = JArr [JNum 12],
             metadata = JObj [(''chunk_index'', JNum 1)]\<rparr>"
    by blast
  from twice stored_new kept show ?thesis by simp
qed

text \<open>C6 as stated fails: adding two new texts twice under an identifier whose chunk ids
  are stored succeeds and leaves the old documents under those ids.\<close>

theorem add_documents_overwrite_counterexample:
  "fst (add_documents (snd (add_documents indexed_db ''a'' [''AAAA'', ''BB''] None)) ''a''
          [''AAAA'', ''BB''] None) = Inr ''pdf_0cc175b9c0f1b6a831c399e269772661''
   \<and> map_option document
        (stored (snd (add_documents (snd (add_documents indexed_db ''a'' [''AAAA'', ''BB''] None))
                        ''a'' [''AAAA'', ''BB''] None)) ''a'' ''chunk_0'') = Some ''The cat sat.''
   \<and> map_option document
        (stored (snd (add_documents (snd (add_documents indexed_db ''a'' [''AAAA'', ''BB''] None))
                        ''a'' [''AAAA'', ''BB''] None)) ''a'' ''chunk_1'') = Some ''The dog ran.''"
  by code_simp

section \<open>Embeddings\<close>

lemma embedding_of_missing:
  "map_of kvs ''embedding'' = None \<Longrightarrow> embedding_of (JObj kvs) = Inr (JArr [])"
  by (simp add: embedding_of_def)

lemma embeddings_loop_results:
  assumes "embeddings_loop c m texts acc = Inr vs"
  shows "\<exists>new. vs = acc @ new \<and>
           list_all2 (\<lambda>t e. \<exists>data. post_json c (model_or m (OLLAMA_EMBEDDING_MODEL c)) t = Inr data
                               \<and> embedding_of data = Inr e) texts new"
  using assms
proof (induction texts arbitrary: acc)
  case Nil
  then show ?case by simp
next
  case (Cons t texts)
  from Cons.prems obtain data e where
    d: "post_json c (model_or m (OLLAMA_EMBEDDING_MODEL c)) t = Inr data"
    and e: "embedding_of data = Inr e"
    and rest: "embeddings_loop c m texts (acc @ [e]) = Inr vs"
    by (auto split: sum.splits)
  from Cons.IH [OF rest] obtain new where
    "vs = (acc @ [e]) @ new"
    "list_all2 (\<lambda>t e. \<exists>data. post_json c (model_or m (OLLAMA_EMBEDDING_MODEL c)) t = Inr data
                               \<and> embedding_of data = Inr e) texts new"
    by blast
  with d e show ?case
    by (intro exI [of _ "e # new"]) auto
qed

text \<open>
  C9: the embeddings operation returns one vector per input text, in the order of the
  inputs. For the remote variant the vector at each position is the one extracted from
  the response to the text at that position, and a response without the \<open>embedding\<close>
  field gives the empty vector there. For the local variant the result is the model's
  rows converted in order, one for each row the model returns (one per text).
\<close>

theorem embeddings_one_per_text:
  assumes "get_embeddings v texts = Inr vs"
  shows "(embeddings_provider v = ''ollama'' \<longrightarrow>
            list_all2 (\<lambda>t e. \<exists>data. post_json (ollama_client v)
                                     (OLLAMA_EMBEDDING_MODEL (ollama_client v)) t = Inr data
                               \<and> embedding_of data = Inr e
                               \<and> (\<forall>kvs. data = JObj kvs \<and> map_of kvs ''embedding'' = None
                                         \<longrightarrow> e = JArr []))
              texts vs)
       \<and> (embeddings_provider v \<noteq> ''ollama'' \<longrightarrow>
            (\<exists>encode embs. embedding_model v = Some encode \<and> encode texts = Inr embs
               \<and> vs = map tolist embs
               \<and> (length embs = length texts \<longrightarrow> length vs = length texts)))"
proof (intro conjI impI)
  assume "embeddings_provider v = ''ollama''"
  with assms have "embeddings_loop (ollama_client v) None texts [] = Inr vs"
    by (simp add: get_embeddings_def embeddings_def)
  from embeddings_loop_results [OF this]
  have "list_all2 (\<lambda>t e. \<exists>data. post_json (ollama_client v)
                                     (OLLAMA_EMBEDDING_MODEL (ollama_client v)) t = Inr data
                               \<and> embedding_of data = Inr e) texts vs"
    by (simp add: model_or_def)
  then show "list_all2 (\<lambda>t e. \<exists>data. post_json (ollama_client v)
                                     (OLLAMA_EMBEDDING_MODEL (ollama_client v)) t = Inr data
                               \<and> embedding_of data = Inr e
                               \<and> (\<forall>kvs. data = JObj kvs \<and> map_of kvs ''embedding'' = None
                                         \<longrightarrow> e = JArr []))
              texts vs"
    by (rule list_all2_mono) (auto simp: embedding_of_missing)
next
  assume "embeddings_provider v \<noteq> ''ollama''"
  with assms show "\<exists>encode embs. embedding_model v = Some encode \<and> encode texts = Inr embs
               \<and> vs = map tolist embs
               \<and> (length embs = length texts \<longrightarrow> length vs = length texts)"
    by (auto simp: get_embeddings_def split: option.splits sum.splits)
qed

theorem embeddings_one_per_text_witness:
  "get_embeddings sample_db [''The cat sat.'', '''', ''Birds''] = Inr [JArr [JNum 12], JArr [], JArr [JNum 5]]
   \<and> length [JArr [JNum 12], JArr [], JArr [JNum 5]] = length [''The cat sat.'', '''', ''Birds'']
   \<and> get_embeddings local_db [''The cat sat.'', '''', ''Birds'']
       = Inr [JArr [JNum 12, JNum 1], JArr [JNum 0, JNum 1], JArr [JNum 5, JNum 1]]"
proof -
  have remote: "get_embeddings sample_db [''The cat sat.'', '''', ''Birds'']
      = Inr [JArr [JNum 12], JArr [], JArr [JNum 5]]"
    by code_simp
  have loc: "get_embeddings local_db [''The cat sat.'', '''', ''Birds'']
       = Inr [JArr [JNum 12, JNum 1], JArr [JNum 0, JNum 1], JArr [JNum 5, JNum 1]]"
    by code_simp
  have p: "embeddings_provider sample_db = ''ollama''" "embeddings_provider local_db \<noteq> ''ollama''"
    by (simp_all add: sample_db_def local_db_def)
  from embeddings_one_per_text [OF remote] embeddings_one_per_text [OF loc] p remote loc
  show ?thesis by (auto dest: list_all2_lengthD)
qed

section \<open>Suggested questions\<close>

lemma strip_fixed:
  assumes "s \<noteq> []" and "\<not> py_isspace (hd s)" and "\<not> py_isspace (last s)"
  shows "strip s = s"
proof -
  from assms(1,2) have l: "dropWhile py_isspace s = s"
    by (cases s) simp_all
  from assms(1,3) have "dropWhile py_isspace (rev s) = rev s"
    by (cases "rev s") (simp_all add: last_rev [symmetric] del: last_rev)
  with l show ?thesis by (simp add: strip_def lstrip_def rstrip_def)
qed

lemma strip_ends:
  assumes "strip s \<noteq> []"
  shows "\<not> py_isspace (hd (strip s))" and "\<not> py_isspace (last (strip s))"
proof -
  let ?u = "dropWhile py_isspace s"
  let ?d = "dropWhile py_isspace (rev ?u)"
  have t: "strip s = rev ?d" by (simp add: strip_def lstrip_def rstrip_def)
  with assms have d: "?d \<noteq> []" by simp
  then have "\<not> py_isspace (hd ?d)" by (rule hd_dropWhile)
  with d t show "\<not> py_isspace (last (strip s))" by (simp add: last_rev)
  have "rev (takeWhile py_isspace (rev ?u) @ ?d) = rev (rev ?u)"
    by (simp only: takeWhile_dropWhile_id)
  then have "rev ?d @ rev (takeWhile py_isspace (rev ?u)) = ?u"
    by (simp only: rev_append rev_rev_ident)
  then have u: "?u = strip s @ rev (takeWhile py_isspace (rev ?u))"
    by (simp only: t)
  from u assms have "?u \<noteq> []" by (metis append_is_Nil_conv)
  then have "\<not> py_isspace (hd ?u)" by (rule hd_dropWhile)
  moreover from u assms have "hd ?u = hd (strip s)" by (metis hd_append2)
  ultimately show "\<not> py_isspace (hd (strip s))" by simp
qed

lemma strip_strip: "strip (strip s) = strip s"
proof (cases "strip s = []")
  case True
  have "strip [] = []" by (simp add: strip_def lstrip_def rstrip_def)
  with True show ?thesis by (simp only:)
next
  case False
  from strip_fixed [OF False strip_ends [OF False]] show ?thesis .
qed

text \<open>
  C10: \<open>get_suggested_questions\<close> never propagates an exception. For every sample it
  returns a list: the empty list when the chat call fails, and otherwise at most 5
  questions, each non-empty, free of surrounding whitespace, and the stripped form of a
  line of the model's reply.
\<close>

theorem suggested_questions_total:
  "\<exists>qs. get_suggested_questions qa c sample = Inr qs \<and> length qs \<le> 5 \<and>
     (\<forall>e. suggest_chat qa c sample = Inl e \<longrightarrow> qs = []) \<and>
     (\<forall>q \<in> set qs. q \<noteq> [] \<and> strip q = q \<and>
        (\<exists>reply l. suggest_chat qa c sample = Inr reply \<and>
                    l \<in> set (split_on (CHR 0x0A) reply) \<and> q = strip l))"
proof (cases "suggest_chat qa c sample")
  case (Inl e)
  then have "get_suggested_questions qa c sample = Inr []"
    by (simp add: get_suggested_questions_def suggested_body_def)
  then show ?thesis by simp
next
  case (Inr reply)
  define qs where "qs = take 5 (map strip (filter (\<lambda>q. strip q \<noteq> []) (split_on (CHR 0x0A) reply)))"
  have run: "get_suggested_questions qa c sample = Inr qs"
    using Inr by (simp add: get_suggested_questions_def suggested_body_def qs_def)
  have len: "length qs \<le> 5"
    by (simp add: qs_def)
  have ok: "\<forall>e. suggest_chat qa c sample = Inl e \<longrightarrow> qs = []"
    using Inr by simp
  have each: "\<forall>q \<in> set qs. q \<noteq> [] \<and> strip q = q \<and>
        (\<exists>reply l. suggest_chat qa c sample = Inr reply \<and>
                    l \<in> set (split_on (CHR 0x0A) reply) \<and> q = strip l)"
  proof
    fix q
    assume "q \<in> set qs"
    then have "q \<in> set (map strip (filter (\<lambda>q. strip q \<noteq> []) (split_on (CHR 0x0A) reply)))"
      unfolding qs_def by (rule in_set_takeD)
    then obtain l where l: "l \<in> set (split_on (CHR 0x0A) reply)" "strip l \<noteq> []" "q = strip l"
      by auto
    from l(2,3) have "q \<noteq> []" by simp
    moreover from l(3) have "strip q = q" by (simp only: strip_strip)
    moreover from Inr l(1,3) have "\<exists>reply l. suggest_chat qa c sample = Inr reply \<and>
                    l \<in> set (split_on (CHR 0x0A) reply) \<and> q = strip l"
      by blast
    ultimately show "q \<noteq> [] \<and> strip q = q \<and>
        (\<exists>reply l. suggest_chat qa c sample = Inr reply \<and>
                    l \<in> set (split_on (CHR 0x0A) reply) \<and> q = strip l)"
      by blast
  qed
  from run len ok each show ?thesis by blast
qed

theorem suggested_questions_total_witness:
  "get_suggested_questions sample_qa questions_client ''Cats and dogs.''
     = Inr [''What sat?'', ''Who ran?'', ''Q3?'', ''Q4?'', ''Q5?'']
   \<and> get_suggested_questions sample_qa (questions_client\<lparr>post_chat := (\<lambda>p. PostRaises ConnectionError)\<rparr>)
        ''Cats and dogs.'' = Inr []"
proof -
  have a: "get_suggested_questions sample_qa questions_client ''Cats and dogs.''
     = Inr [''What sat?'', ''Who ran?'', ''Q3?'', ''Q4?'', ''Q5?'']"
    by code_simp
  have b: "suggest_chat sample_qa (questions_client\<lparr>post_chat := (\<lambda>p. PostRaises ConnectionError)\<rparr>)
        ''Cats and dogs.'' = Inl CannotConnect"
    by code_simp
  from suggested_questions_total [of sample_qa "questions_client\<lparr>post_chat := (\<lambda>p. PostRaises ConnectionError)\<rparr>" "''Cats and dogs.''"] a b
  show ?thesis by auto
qed

end
